theory Spec2Isabelle
  imports Main "HOL-Library.Word"
begin

section \<open>The upload route handler \<open>src/app/api/imagekit/upload/route.js\<close>\<close>

text \<open>
  The handler \<open>POST\<close> authenticates the caller, reads a multipart form, validates the
  uploaded file, derives a storage key, calls the image store and answers with JSON.
  The model follows the source statement by statement. Everything the handler obtains
  from outside (the auth provider, the parsed form, the clock, the store SDK) is a field
  of an environment or of the request; every call to such a collaborator is recorded in
  a trace of events, so that "the store is never called" is a statement about the trace.
\<close>

subsection \<open>JavaScript values\<close>

text \<open>
  A JavaScript string is a sequence of UTF-16 code units; \<open>length\<close> counts code units
  and a regular expression without the \<open>u\<close> flag matches code unit by code unit.
\<close>

type_synonym code_unit = "16 word"
type_synonym js_string = "code_unit list"
type_synonym byte = "8 word"

definition js :: "string \<Rightarrow> js_string" where
  "js s = map of_char s"

text \<open>
  Anything can be thrown or be the reason of a rejected promise. The \<open>catch\<close> block reads
  \<open>error.message\<close>, so a thrown value is told apart by what that read does: on \<open>null\<close> or
  \<open>undefined\<close> the read itself raises a \<open>TypeError\<close>; on any other value it gives the
  value's \<open>message\<close> property, a string or \<open>undefined\<close> (here \<open>None\<close>). A \<open>TypeError\<close> raised by
  the engine names what went wrong; its message text is the engine's own
  (\<open>engine_message\<close> of the environment below).
\<close>

datatype type_error =
    NotAFunction js_string
  | NullishProperty js_string

datatype thrown =
    ThrownNullish
  | ThrownValue "js_string option"
  | ThrownTypeError type_error

text \<open>
  A \<open>File\<close> of the form: the handler reads \<open>file.type\<close> and \<open>await file.arrayBuffer()\<close>, which
  resolves to the bytes or rejects.
\<close>

record js_file =
  type :: js_string
  arrayBuffer :: "thrown + byte list"

text \<open>\<open>FormData.get\<close> returns a string, a \<open>File\<close>, or \<open>null\<close> (here \<open>None\<close>).\<close>

datatype form_value = FormString js_string | FormFile js_file

type_synonym form_data = "(js_string \<times> form_value) list"

definition formData_get :: "form_data \<Rightarrow> js_string \<Rightarrow> form_value option" where
  "formData_get fd k = map_of fd k"

record request =
  formData :: "thrown + form_data"

subsection \<open>The store SDK and the environment\<close>

record upload_options =
  opt_file :: "byte list"
  opt_fileName :: js_string
  opt_folder :: js_string

record upload_response =
  resp_url :: js_string
  resp_fileId :: js_string
  resp_width :: nat
  resp_height :: nat
  resp_size :: nat
  resp_name :: js_string

record transformation =
  width :: nat
  height :: nat
  cropMode :: js_string
  quality :: nat

record url_options =
  src :: js_string
  transformation :: "transformation list"

text \<open>
  \<open>auth env\<close> is the outcome of \<open>await auth()\<close>: a rejection, or the \<open>userId\<close> property
  of the result (\<open>None\<close> for \<open>null\<close>). \<open>Date_now env\<close> is the value of \<open>Date.now()\<close>.
  \<open>imagekit_upload\<close> is the outcome of \<open>await imagekit.upload(...)\<close>. \<open>imagekit_url\<close> is
  the SDK's URL builder, by the store contract a pure, synchronous function from the
  options to a URL. \<open>engine_message\<close> is the message text the JavaScript engine gives a
  \<open>TypeError\<close>.
\<close>

record env =
  auth :: "thrown + js_string option"
  Date_now :: int
  imagekit_upload :: "upload_options \<Rightarrow> thrown + upload_response"
  imagekit_url :: "url_options \<Rightarrow> js_string"
  engine_message :: "type_error \<Rightarrow> js_string"

datatype event =
    Auth
  | RequestFormData
  | FileArrayBuffer
  | DateNow
  | ImagekitUpload upload_options
  | ImagekitUrl url_options
  | ConsoleError thrown

subsection \<open>Responses\<close>

datatype json_body =
    ErrorBody js_string
  | SuccessBody js_string js_string js_string nat nat nat js_string
  | FailureBody js_string "js_string option"

text \<open>
  \<open>ErrorBody e\<close> is \<open>{ error: e }\<close>; \<open>SuccessBody url thumbnailUrl fileId width height size name\<close>
  is \<open>{ success: true, url, thumbnailUrl, fileId, width, height, size, name }\<close>;
  \<open>FailureBody e d\<close> is \<open>{ success: false, error: e, details: d }\<close>, where a \<open>details\<close> of
  \<open>undefined\<close> (\<open>None\<close>) is left out of the JSON text.
\<close>

record response =
  status :: nat
  body :: json_body

definition NextResponse_json :: "json_body \<Rightarrow> nat \<Rightarrow> response" where
  "NextResponse_json b s = \<lparr>status = s, body = b\<rparr>"

subsection \<open>Truthiness\<close>

text \<open>\<open>null\<close>, \<open>undefined\<close> and the empty string are falsy; objects are truthy.\<close>

fun truthy :: "js_string option \<Rightarrow> bool" where
  "truthy None = False"
| "truthy (Some s) = (s \<noteq> [])"

fun truthy_value :: "form_value option \<Rightarrow> bool" where
  "truthy_value None = False"
| "truthy_value (Some (FormString s)) = (s \<noteq> [])"
| "truthy_value (Some (FormFile f)) = True"

text \<open>\<open>a || d\<close> for an optional string \<open>a\<close>.\<close>

definition or_default :: "js_string option \<Rightarrow> js_string \<Rightarrow> js_string" where
  "or_default a d = (case a of None \<Rightarrow> d | Some s \<Rightarrow> if s = [] then d else s)"

subsection \<open>Type validation\<close>

definition validTypes :: "js_string list" where
  "validTypes = [js ''image/png'', js ''image/jpeg'', js ''image/webp'']"

text \<open>\<open>file.type\<close>: a string has no such property (\<open>undefined\<close>, here \<open>None\<close>).\<close>

fun type_of :: "form_value \<Rightarrow> js_string option" where
  "type_of (FormString s) = None"
| "type_of (FormFile f) = Some (type f)"

fun array_includes :: "js_string list \<Rightarrow> js_string option \<Rightarrow> bool" where
  "array_includes xs None = False"
| "array_includes xs (Some s) = (s \<in> set xs)"

definition MAX_SIZE :: nat where
  "MAX_SIZE = 5 * 1024 * 1024"

subsection \<open>Name sanitization\<close>

text \<open>The character class \<open>[a-zA-Z0-9.-]\<close> of the source's regular expression.\<close>

definition in_class :: "code_unit \<Rightarrow> bool" where
  "in_class c \<longleftrightarrow>
     (of_char CHR ''a'' \<le> c \<and> c \<le> of_char CHR ''z'') \<or>
     (of_char CHR ''A'' \<le> c \<and> c \<le> of_char CHR ''Z'') \<or>
     (of_char CHR ''0'' \<le> c \<and> c \<le> of_char CHR ''9'') \<or>
     c = of_char CHR ''.'' \<or> c = of_char CHR ''-''"

text \<open>\<open>s.replace(/[^a-zA-Z0-9.-]/g, "_")\<close>: every code unit outside the class becomes \<open>_\<close>.\<close>

definition sanitize_replace :: "js_string \<Rightarrow> js_string" where
  "sanitize_replace s = map (\<lambda>c. if in_class c then c else of_char CHR ''_'') s"

text \<open>
  \<open>fileName?.replace(...)\<close>: \<open>undefined\<close> for an absent field, the replaced string for a
  string, and a \<open>TypeError\<close> for a \<open>File\<close>, which has no \<open>replace\<close> method.
\<close>

fun optional_replace :: "form_value option \<Rightarrow> thrown + js_string option" where
  "optional_replace None = Inr None"
| "optional_replace (Some (FormString s)) = Inr (Some (sanitize_replace s))"
| "optional_replace (Some (FormFile f)) =
     Inl (ThrownTypeError (NotAFunction (js ''fileName?.replace'')))"

definition sanitizedFileName :: "form_value option \<Rightarrow> thrown + js_string" where
  "sanitizedFileName fileName =
     (case optional_replace fileName of
        Inl e \<Rightarrow> Inl e
      | Inr r \<Rightarrow> Inr (or_default r (js ''upload'')))"

text \<open>
  The safe set \<open>[a-zA-Z0-9._-]\<close> and the sanitization as the specification words them:
  every character outside the safe set is replaced by an underscore, and the placeholder
  stands in when no name was supplied (an absent or empty field).
\<close>

definition safe_set :: "code_unit \<Rightarrow> bool" where
  "safe_set c \<longleftrightarrow>
     (of_char CHR ''a'' \<le> c \<and> c \<le> of_char CHR ''z'') \<or>
     (of_char CHR ''A'' \<le> c \<and> c \<le> of_char CHR ''Z'') \<or>
     (of_char CHR ''0'' \<le> c \<and> c \<le> of_char CHR ''9'') \<or>
     c = of_char CHR ''.'' \<or> c = of_char CHR ''_'' \<or> c = of_char CHR ''-''"

definition spec_sanitize :: "js_string \<Rightarrow> js_string" where
  "spec_sanitize s = map (\<lambda>c. if safe_set c then c else of_char CHR ''_'') s"

definition spec_sanitizedName :: "js_string option \<Rightarrow> js_string" where
  "spec_sanitizedName suggested =
     (case suggested of
        None \<Rightarrow> js ''upload''
      | Some s \<Rightarrow> if s = [] then js ''upload'' else spec_sanitize s)"

subsection \<open>The storage key\<close>

text \<open>
  The template literal converts \<open>timestamp\<close> with \<open>Number::toString\<close>. \<open>Date.now()\<close> is an
  integer of magnitude below \<open>10^21\<close>, where that conversion is the decimal numeral,
  with a leading \<open>-\<close> for a negative number.
\<close>

fun digit_string :: "nat \<Rightarrow> js_string" where
  "digit_string n =
     (if n < 10 then [of_char CHR ''0'' + of_nat n]
      else digit_string (n div 10) @ [of_char CHR ''0'' + of_nat (n mod 10)])"

declare digit_string.simps [simp del]

definition Number_toString :: "int \<Rightarrow> js_string" where
  "Number_toString i =
     (if i < 0 then of_char CHR ''-'' # digit_string (nat (- i)) else digit_string (nat i))"

text \<open>\<open>${userId}\<close>: the string itself; \<open>null\<close> would print as \<open>"null"\<close>.\<close>

fun ToString :: "js_string option \<Rightarrow> js_string" where
  "ToString None = js ''null''"
| "ToString (Some s) = s"

definition uniqueFileName :: "js_string \<Rightarrow> int \<Rightarrow> js_string \<Rightarrow> js_string" where
  "uniqueFileName userId timestamp sanitized =
     userId @ js ''/'' @ Number_toString timestamp @ js ''_'' @ sanitized"

definition thumbnail_options :: "js_string \<Rightarrow> url_options" where
  "thumbnail_options u =
     \<lparr>src = u,
      transformation =
        [\<lparr>width = 400, height = 300, cropMode = js ''maintain_ar'', quality = 80\<rparr>]\<rparr>"

subsection \<open>The handler\<close>

text \<open>
  \<open>POST_try\<close> is the body of the \<open>try\<close> block: it returns a response (\<open>Inr\<close>) or throws
  (\<open>Inl\<close>), together with the collaborator calls made so far. The branch for a \<open>file\<close>
  that is not a \<open>File\<close> after the type check is the \<open>TypeError\<close> JavaScript would raise
  at \<open>file.arrayBuffer()\<close>.
\<close>

definition POST_try :: "env \<Rightarrow> request \<Rightarrow> (thrown + response) \<times> event list" where
  "POST_try e request =
     (case auth e of
        Inl err \<Rightarrow> (Inl err, [Auth])
      | Inr userId \<Rightarrow>
          if \<not> truthy userId then
            (Inr (NextResponse_json (ErrorBody (js ''Unauthorized'')) 401), [Auth])
          else
            (case formData request of
               Inl err \<Rightarrow> (Inl err, [Auth, RequestFormData])
             | Inr fd \<Rightarrow>
                 let file = formData_get fd (js ''file'');
                     fileName = formData_get fd (js ''fileName'')
                 in
                 if \<not> truthy_value file then
                   (Inr (NextResponse_json (ErrorBody (js ''No file provided'')) 400),
                    [Auth, RequestFormData])
                 else if \<not> array_includes validTypes (Option.bind file type_of) then
                   (Inr (NextResponse_json (ErrorBody (js ''Unsupported file type'')) 400),
                    [Auth, RequestFormData])
                 else
                   (case file of
                      Some (FormFile f) \<Rightarrow>
                        (case arrayBuffer f of
                           Inl err \<Rightarrow> (Inl err, [Auth, RequestFormData, FileArrayBuffer])
                         | Inr buffer \<Rightarrow>
                            if length buffer > MAX_SIZE then
                              (Inr (NextResponse_json
                                      (ErrorBody (js ''File too large (max 5MB allowed)'')) 400),
                               [Auth, RequestFormData, FileArrayBuffer])
                            else
                              let timestamp = Date_now e in
                              (case sanitizedFileName fileName of
                                 Inl err \<Rightarrow>
                                   (Inl err, [Auth, RequestFormData, FileArrayBuffer, DateNow])
                               | Inr sanitized \<Rightarrow>
                                   let opts =
                                         \<lparr>opt_file = buffer,
                                          opt_fileName =
                                            uniqueFileName (ToString userId) timestamp sanitized,
                                          opt_folder = js ''/projects''\<rparr>
                                   in
                                   (case imagekit_upload e opts of
                                      Inl err \<Rightarrow>
                                        (Inl err,
                                         [Auth, RequestFormData, FileArrayBuffer, DateNow,
                                          ImagekitUpload opts])
                                    | Inr uploadResponse \<Rightarrow>
                                        let thumbnailUrl =
                                              imagekit_url e
                                                (thumbnail_options (resp_url uploadResponse))
                                        in
                                        (Inr (NextResponse_json
                                                (SuccessBody
                                                   (resp_url uploadResponse)
                                                   thumbnailUrl
                                                   (resp_fileId uploadResponse)
                                                   (resp_width uploadResponse)
                                                   (resp_height uploadResponse)
                                                   (resp_size uploadResponse)
                                                   (resp_name uploadResponse))
                                                200),
                                         [Auth, RequestFormData, FileArrayBuffer, DateNow,
                                          ImagekitUpload opts,
                                          ImagekitUrl
                                            (thumbnail_options (resp_url uploadResponse))]))))
                    | _ \<Rightarrow>
                        (Inl (ThrownTypeError (NotAFunction (js ''file.arrayBuffer''))),
                         [Auth, RequestFormData]))))"

text \<open>
  \<open>error.message\<close> in the \<open>catch\<close> block: a \<open>TypeError\<close> for \<open>null\<close> and \<open>undefined\<close>, the
  message property otherwise.
\<close>

fun error_message :: "env \<Rightarrow> thrown \<Rightarrow> thrown + js_string option" where
  "error_message e ThrownNullish = Inl (ThrownTypeError (NullishProperty (js ''message'')))"
| "error_message e (ThrownValue m) = Inr m"
| "error_message e (ThrownTypeError t) = Inr (Some (engine_message e t))"

text \<open>
  The handler: the \<open>try\<close> block, and the \<open>catch\<close> block, which logs the error and answers
  500 with the error's message. Nothing encloses the \<open>catch\<close> block, so what it throws
  leaves the handler (\<open>Inl\<close>).
\<close>

definition POST :: "env \<Rightarrow> request \<Rightarrow> (thrown + response) \<times> event list" where
  "POST e request =
     (case POST_try e request of
        (Inr r, t) \<Rightarrow> (Inr r, t)
      | (Inl error, t) \<Rightarrow>
          (case error_message e error of
             Inl err \<Rightarrow> (Inl err, t @ [ConsoleError error])
           | Inr details \<Rightarrow>
               (Inr (NextResponse_json
                       (FailureBody (js ''Failed to upload image'') details) 500),
                t @ [ConsoleError error])))"

subsection \<open>Reading traces and numerals\<close>

text \<open>The store uploads recorded in a trace, in order.\<close>

fun uploads :: "event list \<Rightarrow> upload_options list" where
  "uploads [] = []"
| "uploads (ImagekitUpload p # t) = p # uploads t"
| "uploads (_ # t) = uploads t"

text \<open>
  The decimal numeral of an integer, said without reference to the printing function:
  a string of digits \<open>0\<close> to \<open>9\<close> with no leading zero (the single digit \<open>0\<close> apart) that
  reads back, digit by digit from the left, as the number; a negative number carries a
  leading \<open>-\<close>.
\<close>

definition digit_value :: "code_unit \<Rightarrow> nat" where
  "digit_value c = unat c - 48"

definition parse_digits :: "js_string \<Rightarrow> nat" where
  "parse_digits ds = foldl (\<lambda>a c. 10 * a + digit_value c) 0 ds"

definition is_digit :: "code_unit \<Rightarrow> bool" where
  "is_digit c \<longleftrightarrow> of_char CHR ''0'' \<le> c \<and> c \<le> of_char CHR ''9''"

definition decimal_digits :: "js_string \<Rightarrow> nat \<Rightarrow> bool" where
  "decimal_digits ds n \<longleftrightarrow>
     ds \<noteq> [] \<and> list_all is_digit ds \<and>
     (length ds = 1 \<or> of_char CHR ''0'' < hd ds) \<and>
     parse_digits ds = n"

definition decimal_numeral :: "js_string \<Rightarrow> int \<Rightarrow> bool" where
  "decimal_numeral ts i \<longleftrightarrow>
     (if i < 0
      then ts \<noteq> [] \<and> hd ts = of_char CHR ''-'' \<and> decimal_digits (tl ts) (nat (- i))
      else decimal_digits ts (nat i))"

subsection \<open>The invariant of an upload request, as the specification words it\<close>

definition UploadRequest_invariant :: "byte list \<Rightarrow> js_string \<Rightarrow> bool" where
  "UploadRequest_invariant fileBytes declaredContentType \<longleftrightarrow>
     0 < length fileBytes \<and> length fileBytes \<le> 5 * 1024 * 1024 \<and>
     declaredContentType \<in> {js ''image/png'', js ''image/jpeg'', js ''image/webp''}"

subsection \<open>Sample collaborators and requests\<close>

definition sample_store :: "upload_options \<Rightarrow> thrown + upload_response" where
  "sample_store p =
     Inr \<lparr>resp_url = js ''https://ik.example/projects/'' @ opt_fileName p,
          resp_fileId = js ''f1'',
          resp_width = 800,
          resp_height = 600,
          resp_size = length (opt_file p),
          resp_name = opt_fileName p\<rparr>"

definition failing_store :: "upload_options \<Rightarrow> thrown + upload_response" where
  "failing_store p = Inl (ThrownValue (Some (js ''Network error'')))"

text \<open>A store whose upload promise is rejected with no reason, as \<open>Promise.reject()\<close> does.\<close>

definition rejecting_store :: "upload_options \<Rightarrow> thrown + upload_response" where
  "rejecting_store p = Inl ThrownNullish"

definition sample_url :: "url_options \<Rightarrow> js_string" where
  "sample_url opts = src opts @ js ''?tr=w-400,h-300,cm-maintain_ar,q-80''"

fun sample_engine :: "type_error \<Rightarrow> js_string" where
  "sample_engine (NotAFunction callee) = callee @ js '' is not a function''"
| "sample_engine (NullishProperty p) = js ''Cannot read properties of undefined''"

definition u1_env :: env where
  "u1_env =
     \<lparr>auth = Inr (Some (js ''u1'')), Date_now = 1700000000123,
      imagekit_upload = sample_store, imagekit_url = sample_url,
      engine_message = sample_engine\<rparr>"

definition anonymous_env :: env where
  "anonymous_env =
     \<lparr>auth = Inr None, Date_now = 1700000000123,
      imagekit_upload = sample_store, imagekit_url = sample_url,
      engine_message = sample_engine\<rparr>"

definition store_down_env :: env where
  "store_down_env =
     \<lparr>auth = Inr (Some (js ''u1'')), Date_now = 1700000000123,
      imagekit_upload = failing_store, imagekit_url = sample_url,
      engine_message = sample_engine\<rparr>"

definition store_rejecting_env :: env where
  "store_rejecting_env =
     \<lparr>auth = Inr (Some (js ''u1'')), Date_now = 1700000000123,
      imagekit_upload = rejecting_store, imagekit_url = sample_url,
      engine_message = sample_engine\<rparr>"

definition upload_form :: "js_string \<Rightarrow> byte list \<Rightarrow> js_string \<Rightarrow> form_data" where
  "upload_form t b n =
     [(js ''file'', FormFile \<lparr>type = t, arrayBuffer = Inr b\<rparr>),
      (js ''fileName'', FormString n)]"

definition photo_request :: request where
  "photo_request =
     \<lparr>formData = Inr (upload_form (js ''image/png'') (replicate 1024 7) (js ''My Photo!.png''))\<rparr>"

definition pdf_request :: request where
  "pdf_request =
     \<lparr>formData = Inr (upload_form (js ''application/pdf'') [1, 2, 3] (js ''doc.pdf''))\<rparr>"

definition big_request :: request where
  "big_request =
     \<lparr>formData =
        Inr (upload_form (js ''image/png'') (replicate (6 * 1024 * 1024) 0) (js ''big.png''))\<rparr>"

definition empty_request :: request where
  "empty_request =
     \<lparr>formData = Inr (upload_form (js ''image/png'') [] (js ''empty.png''))\<rparr>"

section \<open>Properties\<close>

subsection \<open>Sanitization\<close>

lemma safe_set_iff: "safe_set c \<longleftrightarrow> in_class c \<or> c = of_char CHR ''_''"
  by (auto simp add: safe_set_def in_class_def)

lemma not_in_class_underscore: "\<not> in_class (of_char CHR ''_'')"
  by (simp add: in_class_def)

lemma sanitize_replace_spec: "sanitize_replace s = spec_sanitize s"
  by (simp add: sanitize_replace_def spec_sanitize_def safe_set_iff)

lemma length_sanitize_replace: "length (sanitize_replace s) = length s"
  by (simp add: sanitize_replace_def)

lemma sanitize_replace_Nil_iff: "sanitize_replace s = [] \<longleftrightarrow> s = []"
  by (simp add: sanitize_replace_def)

lemma spec_sanitize_Nil_iff: "spec_sanitize s = [] \<longleftrightarrow> s = []"
  by (simp add: spec_sanitize_def)

lemma sanitize_replace_safe: "list_all safe_set (sanitize_replace s)"
  by (induction s) (simp_all add: sanitize_replace_def safe_set_iff)

lemma sanitize_replace_idem: "sanitize_replace (sanitize_replace s) = sanitize_replace s"
  by (simp add: sanitize_replace_def not_in_class_underscore)

lemma sanitize_replace_upload: "sanitize_replace (js ''upload'') = js ''upload''"
  by (simp add: sanitize_replace_def js_def in_class_def)

lemma upload_not_Nil: "js ''upload'' \<noteq> []"
  by (simp add: js_def)

subsection \<open>Decimal numerals\<close>

lemma unat_digit: "d < 10 \<Longrightarrow> unat (48 + of_nat d :: code_unit) = 48 + d"
  by (simp add: unat_word_ariths unat_of_nat)

lemma digit_value_digit: "d < 10 \<Longrightarrow> digit_value (48 + of_nat d) = d"
  by (simp add: digit_value_def unat_digit)

lemma parse_digit_string: "parse_digits (digit_string n) = n"
proof (induction n rule: digit_string.induct)
  case (1 n)
  show ?case
  proof (cases "n < 10")
    case True
    then show ?thesis
      by (subst digit_string.simps) (simp add: parse_digits_def digit_value_digit)
  next
    case False
    with 1 have "parse_digits (digit_string (n div 10)) = n div 10" by simp
    with False show ?thesis
      by (subst digit_string.simps) (simp add: parse_digits_def digit_value_digit)
  qed
qed

lemma digit_string_inj: "digit_string n = digit_string m \<Longrightarrow> n = m"
  by (metis parse_digit_string)

lemma digit_string_not_Nil: "digit_string n \<noteq> []"
  by (subst digit_string.simps) simp

lemma unat_hd_digit_string: "48 \<le> unat (hd (digit_string n))"
proof (induction n rule: digit_string.induct)
  case (1 n)
  show ?case
  proof (cases "n < 10")
    case True
    then show ?thesis
      by (subst digit_string.simps) (simp add: unat_digit)
  next
    case False
    with 1 have "48 \<le> unat (hd (digit_string (n div 10)))" by simp
    with False show ?thesis
      by (subst digit_string.simps) (simp add: digit_string_not_Nil)
  qed
qed

lemma minus_not_digit_string: "of_char CHR ''-'' # ds \<noteq> digit_string n"
proof
  assume "of_char CHR ''-'' # ds = digit_string n"
  then have "hd (digit_string n) = (of_char CHR ''-'' :: code_unit)"
    by (metis list.sel(1))
  then have "unat (hd (digit_string n)) = 45" by simp
  with unat_hd_digit_string [of n] show False by simp
qed

lemma Number_toString_inj: "Number_toString i = Number_toString j \<Longrightarrow> i = j"
proof -
  assume eq: "Number_toString i = Number_toString j"
  show ?thesis
  proof (cases "i < 0")
    case True
    show ?thesis
    proof (cases "j < 0")
      case True
      with \<open>i < 0\<close> eq have "digit_string (nat (- i)) = digit_string (nat (- j))"
        by (simp add: Number_toString_def)
      then have "nat (- i) = nat (- j)" by (rule digit_string_inj)
      with True \<open>i < 0\<close> show ?thesis by simp
    next
      case False
      with \<open>i < 0\<close> eq
      have "of_char CHR ''-'' # digit_string (nat (- i)) = digit_string (nat j)"
        by (simp add: Number_toString_def)
      with minus_not_digit_string show ?thesis by blast
    qed
  next
    case False
    show ?thesis
    proof (cases "j < 0")
      case True
      with \<open>\<not> i < 0\<close> eq
      have "of_char CHR ''-'' # digit_string (nat (- j)) = digit_string (nat i)"
        by (simp add: Number_toString_def)
      with minus_not_digit_string show ?thesis by blast
    next
      case False
      with \<open>\<not> i < 0\<close> eq have "digit_string (nat i) = digit_string (nat j)"
        by (simp add: Number_toString_def)
      then have "nat i = nat j" by (rule digit_string_inj)
      with False \<open>\<not> i < 0\<close> show ?thesis by simp
    qed
  qed
qed

lemma uniqueFileName_timestamp_inj:
  "uniqueFileName u t1 n = uniqueFileName u t2 n \<Longrightarrow> t1 = t2"
  by (simp add: uniqueFileName_def Number_toString_inj)

lemma uniqueFileName_caller_inj:
  "uniqueFileName u1 t n = uniqueFileName u2 t n \<Longrightarrow> u1 = u2"
  by (simp add: uniqueFileName_def)

subsection \<open>The printed timestamp is the decimal numeral\<close>

lemma is_digit_digit: "d < 10 \<Longrightarrow> is_digit (48 + of_nat d)"
  by (simp add: is_digit_def word_le_nat_alt unat_digit)

lemma digit_string_small: "n < 10 \<Longrightarrow> digit_string n = [48 + of_nat n]"
  by (subst digit_string.simps) simp

lemma digit_string_large:
  "\<not> n < 10 \<Longrightarrow> digit_string n = digit_string (n div 10) @ [48 + of_nat (n mod 10)]"
  by (subst digit_string.simps) simp

lemma digit_string_digits: "list_all is_digit (digit_string n)"
proof (induction n rule: digit_string.induct)
  case (1 n)
  show ?case
  proof (cases "n < 10")
    case True
    then show ?thesis by (simp add: digit_string_small is_digit_digit)
  next
    case False
    with 1 have "list_all is_digit (digit_string (n div 10))" by simp
    with False show ?thesis by (simp add: digit_string_large is_digit_digit)
  qed
qed

lemma digit_string_leading: "0 < n \<Longrightarrow> of_char CHR ''0'' < hd (digit_string n)"
proof (induction n rule: digit_string.induct)
  case (1 n)
  show ?case
  proof (cases "n < 10")
    case True
    with 1(2) show ?thesis
      by (simp add: digit_string_small word_less_nat_alt unat_digit)
  next
    case False
    then have "0 < n div 10" by simp
    with 1(1) False have "of_char CHR ''0'' < hd (digit_string (n div 10))" by simp
    with False show ?thesis by (simp add: digit_string_large digit_string_not_Nil)
  qed
qed

lemma decimal_digits_digit_string: "decimal_digits (digit_string n) n"
proof -
  have "length (digit_string n) = 1 \<or> of_char CHR ''0'' < hd (digit_string n)"
  proof (cases "n = 0")
    case True
    then show ?thesis by (simp add: digit_string_small)
  next
    case False
    then show ?thesis using digit_string_leading [of n] by simp
  qed
  then show ?thesis
    unfolding decimal_digits_def
    by (simp add: digit_string_not_Nil digit_string_digits parse_digit_string)
qed

lemma decimal_numeral_Number_toString: "decimal_numeral (Number_toString i) i"
  by (simp add: decimal_numeral_def Number_toString_def decimal_digits_digit_string)

text \<open>Conversely, the characterisation leaves no other string.\<close>

lemma digit_of_value: "is_digit c \<Longrightarrow> 48 + of_nat (digit_value c) = c"
proof -
  assume "is_digit c"
  then have b: "48 \<le> unat c" "unat c \<le> 57"
    by (simp_all add: is_digit_def word_le_nat_alt)
  then have "unat (48 + of_nat (digit_value c) :: code_unit) = unat c"
    by (simp add: digit_value_def unat_digit)
  then show ?thesis by (simp only: unat_eq_nat_uint word_unat_eq_iff)
qed

lemma digit_value_less: "is_digit c \<Longrightarrow> digit_value c < 10"
  by (auto simp add: is_digit_def word_le_nat_alt digit_value_def)

lemma digit_value_pos: "is_digit c \<Longrightarrow> of_char CHR ''0'' < c \<Longrightarrow> 0 < digit_value c"
  by (auto simp add: is_digit_def word_less_nat_alt digit_value_def)

lemma parse_digits_snoc: "parse_digits (ds @ [c]) = 10 * parse_digits ds + digit_value c"
  by (simp add: parse_digits_def)

lemma digits_read_back:
  "list_all is_digit ds \<Longrightarrow> ds \<noteq> [] \<Longrightarrow> of_char CHR ''0'' < hd ds \<Longrightarrow>
   digit_string (parse_digits ds) = ds \<and> 0 < parse_digits ds"
proof (induction ds rule: rev_induct)
  case Nil
  then show ?case by simp
next
  case (snoc c ds)
  from snoc.prems(1) have c: "is_digit c" and ds: "list_all is_digit ds" by simp_all
  show ?case
  proof (cases "ds = []")
    case True
    with snoc.prems(3) have "of_char CHR ''0'' < c" by simp
    with c have "0 < digit_value c" by (rule digit_value_pos [rotated -1, rotated])
    with True c show ?thesis
      by (simp add: parse_digits_def digit_string_small digit_value_less digit_of_value)
  next
    case False
    with snoc.prems(3) have "of_char CHR ''0'' < hd ds" by simp
    with snoc.IH ds False
    have ih: "digit_string (parse_digits ds) = ds" "0 < parse_digits ds" by simp_all
    have v: "digit_value c < 10" using c by (rule digit_value_less)
    from ih(2) have big: "\<not> 10 * parse_digits ds + digit_value c < 10" by simp
    from v have "(10 * parse_digits ds + digit_value c) div 10 = parse_digits ds"
      and "(10 * parse_digits ds + digit_value c) mod 10 = digit_value c"
      by simp_all
    with big ih c show ?thesis
      by (simp add: parse_digits_snoc digit_string_large digit_of_value)
  qed
qed

lemma decimal_digits_unique: "decimal_digits ds n \<Longrightarrow> ds = digit_string n"
proof -
  assume d: "decimal_digits ds n"
  then have ne: "ds \<noteq> []" and dg: "list_all is_digit ds"
    and lead: "length ds = 1 \<or> of_char CHR ''0'' < hd ds"
    and p: "parse_digits ds = n"
    by (simp_all add: decimal_digits_def)
  show ?thesis
  proof (cases "of_char CHR ''0'' < hd ds")
    case True
    from digits_read_back [OF dg ne True] p show ?thesis by simp
  next
    case False
    with lead have "length ds = 1" by simp
    then obtain c where ds: "ds = [c]" by (cases ds) simp_all
    with dg have c: "is_digit c" by simp
    from ds p have "n = digit_value c" by (simp add: parse_digits_def)
    with c ds show ?thesis
      by (simp add: digit_string_small digit_value_less digit_of_value)
  qed
qed

lemma decimal_numeral_unique: "decimal_numeral ts i \<Longrightarrow> ts = Number_toString i"
proof (cases "i < 0")
  case True
  assume "decimal_numeral ts i"
  with True have "ts \<noteq> []" "hd ts = of_char CHR ''-''" "decimal_digits (tl ts) (nat (- i))"
    by (simp_all add: decimal_numeral_def)
  from this(1,2) decimal_digits_unique [OF this(3)] True show ?thesis
    by (cases ts) (simp_all add: Number_toString_def)
next
  case False
  assume "decimal_numeral ts i"
  with False have "decimal_digits ts (nat i)" by (simp add: decimal_numeral_def)
  from decimal_digits_unique [OF this] False show ?thesis
    by (simp add: Number_toString_def)
qed

subsection \<open>Paths through the handler\<close>

lemma truthyD: "truthy x \<Longrightarrow> \<exists>s. x = Some s \<and> s \<noteq> []"
  by (cases x) simp_all

lemma uploads_append: "uploads (xs @ ys) = uploads xs @ uploads ys"
  by (induction xs rule: uploads.induct) simp_all

lemma POST_try_validated:
  assumes "auth e = Inr (Some userId)" "userId \<noteq> []"
    and "formData request = Inr fd"
    and "formData_get fd (js ''file'') = Some (FormFile f)"
    and "type f \<in> set validTypes"
    and "arrayBuffer f = Inr buffer"
    and "length buffer \<le> MAX_SIZE"
    and "sanitizedFileName (formData_get fd (js ''fileName'')) = Inr n"
  shows "POST_try e request =
    (let opts = \<lparr>opt_file = buffer,
                  opt_fileName = uniqueFileName userId (Date_now e) n,
                  opt_folder = js ''/projects''\<rparr>
     in case imagekit_upload e opts of
          Inl err \<Rightarrow>
            (Inl err, [Auth, RequestFormData, FileArrayBuffer, DateNow, ImagekitUpload opts])
        | Inr r \<Rightarrow>
            (Inr (NextResponse_json
               (SuccessBody (resp_url r) (imagekit_url e (thumbnail_options (resp_url r)))
                  (resp_fileId r) (resp_width r) (resp_height r) (resp_size r) (resp_name r))
               200),
             [Auth, RequestFormData, FileArrayBuffer, DateNow, ImagekitUpload opts,
              ImagekitUrl (thumbnail_options (resp_url r))]))"
  using assms by (simp add: POST_try_def Let_def split: sum.splits)

lemma uploads_POST_try:
  assumes "p \<in> set (uploads (snd (POST_try e request)))"
  shows "\<exists>userId fd f buffer n.
      auth e = Inr (Some userId) \<and> userId \<noteq> [] \<and>
      formData request = Inr fd \<and>
      formData_get fd (js ''file'') = Some (FormFile f) \<and>
      type f \<in> set validTypes \<and>
      arrayBuffer f = Inr buffer \<and>
      length buffer \<le> MAX_SIZE \<and>
      sanitizedFileName (formData_get fd (js ''fileName'')) = Inr n \<and>
      p = \<lparr>opt_file = buffer,
           opt_fileName = uniqueFileName userId (Date_now e) n,
           opt_folder = js ''/projects''\<rparr>"
  using assms
  by (auto simp add: POST_try_def Let_def dest!: truthyD
      split: sum.splits option.splits if_splits form_value.splits)

lemma snd_POST:
  "snd (POST e request) =
     (case fst (POST_try e request) of
        Inl err \<Rightarrow> snd (POST_try e request) @ [ConsoleError err]
      | Inr r \<Rightarrow> snd (POST_try e request))"
  by (simp add: POST_def split: prod.splits sum.splits)

lemma uploads_POST: "uploads (snd (POST e request)) = uploads (snd (POST_try e request))"
  by (simp add: snd_POST uploads_append split: sum.splits)

lemma sanitizedFileName_spec:
  assumes "sanitizedFileName fileName = Inr n"
  shows "\<exists>suggested. fileName = map_option FormString suggested \<and>
           n = spec_sanitizedName suggested"
proof (cases fileName)
  case None
  with assms have "n = spec_sanitizedName None"
    by (simp add: sanitizedFileName_def or_default_def spec_sanitizedName_def)
  with None show ?thesis by (intro exI [of _ None]) simp
next
  case (Some v)
  show ?thesis
  proof (cases v)
    case (FormString s)
    with Some assms have "n = spec_sanitizedName (Some s)"
      by (auto simp add: sanitizedFileName_def or_default_def spec_sanitizedName_def
          spec_sanitize_Nil_iff sanitize_replace_spec)
    with Some FormString show ?thesis by (intro exI [of _ "Some s"]) simp
  next
    case (FormFile f)
    with Some assms show ?thesis by (simp add: sanitizedFileName_def)
  qed
qed

lemma sanitizedFileName_string:
  "sanitizedFileName (Some (FormString s)) =
     Inr (if s = [] then js ''upload'' else sanitize_replace s)"
  by (simp add: sanitizedFileName_def or_default_def sanitize_replace_Nil_iff)

lemma sanitizedFileName_not_Nil: "sanitizedFileName fileName = Inr n \<Longrightarrow> n \<noteq> []"
  by (cases fileName rule: optional_replace.cases)
     (auto simp add: sanitizedFileName_def or_default_def upload_not_Nil split: if_splits)


lemma POST_try_success:
  assumes "POST_try e request = (Inr resp, t)" and "status resp = 200"
  shows "\<exists>userId fd f buffer n r.
      auth e = Inr (Some userId) \<and> userId \<noteq> [] \<and>
      formData request = Inr fd \<and>
      formData_get fd (js ''file'') = Some (FormFile f) \<and>
      type f \<in> set validTypes \<and>
      arrayBuffer f = Inr buffer \<and>
      length buffer \<le> MAX_SIZE \<and>
      sanitizedFileName (formData_get fd (js ''fileName'')) = Inr n \<and>
      imagekit_upload e \<lparr>opt_file = buffer,
           opt_fileName = uniqueFileName userId (Date_now e) n,
           opt_folder = js ''/projects''\<rparr> = Inr r"
  using assms
  by (auto simp add: POST_try_def Let_def NextResponse_json_def dest!: truthyD
      split: sum.splits option.splits if_splits form_value.splits)


lemma POST_Inl_value:
  "POST_try e request = (Inl (ThrownValue m), t) \<Longrightarrow>
   POST e request =
     (Inr \<lparr>status = 500, body = FailureBody (js ''Failed to upload image'') m\<rparr>,
      t @ [ConsoleError (ThrownValue m)])"
  by (simp add: POST_def NextResponse_json_def)

lemma POST_Inl_type_error:
  "POST_try e request = (Inl (ThrownTypeError te), t) \<Longrightarrow>
   POST e request =
     (Inr \<lparr>status = 500,
          body = FailureBody (js ''Failed to upload image'') (Some (engine_message e te))\<rparr>,
      t @ [ConsoleError (ThrownTypeError te)])"
  by (simp add: POST_def NextResponse_json_def)

lemma POST_Inl_nullish:
  "POST_try e request = (Inl ThrownNullish, t) \<Longrightarrow>
   POST e request =
     (Inl (ThrownTypeError (NullishProperty (js ''message''))),
      t @ [ConsoleError ThrownNullish])"
  by (simp add: POST_def)

lemma POST_status_200:
  assumes "fst (POST e request) = Inr resp" and "status resp = 200"
  shows "\<exists>t. POST_try e request = (Inr resp, t)"
proof (cases "POST_try e request")
  case (Pair res t)
  show ?thesis
  proof (cases res)
    case (Inr r)
    with Pair assms(1) show ?thesis by (simp add: POST_def)
  next
    case (Inl error)
    with Pair have p: "POST_try e request = (Inl error, t)" by simp
    show ?thesis
    proof (cases error)
      case ThrownNullish
      with p assms(1) show ?thesis by (simp add: POST_Inl_nullish)
    next
      case (ThrownValue m)
      with p assms show ?thesis by (auto simp add: POST_Inl_value)
    next
      case (ThrownTypeError te)
      with p assms show ?thesis by (auto simp add: POST_Inl_type_error)
    qed
  qed
qed



subsection \<open>Sample runs\<close>

lemmas sample_defs =
  u1_env_def anonymous_env_def store_down_env_def store_rejecting_env_def upload_form_def
  photo_request_def pdf_request_def big_request_def empty_request_def sample_store_def
  failing_store_def rejecting_store_def sample_url_def formData_get_def validTypes_def
  MAX_SIZE_def sanitizedFileName_def sanitize_replace_def in_class_def or_default_def
  uniqueFileName_def Number_toString_def digit_string.simps NextResponse_json_def
  thumbnail_options_def js_def

lemma POST_photo:
  "POST u1_env photo_request =
   (Inr \<lparr>status = 200,
      body = SuccessBody
        (js ''https://ik.example/projects/u1/1700000000123_My_Photo_.png'')
        (js ''https://ik.example/projects/u1/1700000000123_My_Photo_.png?tr=w-400,h-300,cm-maintain_ar,q-80'')
        (js ''f1'') 800 600 1024 (js ''u1/1700000000123_My_Photo_.png'')\<rparr>,
    [Auth, RequestFormData, FileArrayBuffer, DateNow,
     ImagekitUpload \<lparr>opt_file = replicate 1024 7,
        opt_fileName = js ''u1/1700000000123_My_Photo_.png'',
        opt_folder = js ''/projects''\<rparr>,
     ImagekitUrl (thumbnail_options
        (js ''https://ik.example/projects/u1/1700000000123_My_Photo_.png''))])"
  by (simp add: POST_def POST_try_def sample_defs)


section \<open>The claims\<close>

text \<open>
  Claim C1. An authenticated request whose \<open>file\<close> field is present but whose declared
  content type is none of \<open>image/png\<close>, \<open>image/jpeg\<close>, \<open>image/webp\<close> is answered with
  status 400 and body \<open>{ error: "Unsupported file type" }\<close>. The trace ends after the form
  was read: the store's upload is never invoked. A non-empty string in the \<open>file\<close> field
  has no type at all and is rejected the same way.
\<close>

theorem unsupported_type_rejected:
  assumes "auth e = Inr (Some userId)" and "userId \<noteq> []"
    and "formData request = Inr fd"
    and "formData_get fd (js ''file'') = Some file" and "truthy_value (Some file)"
    and "type_of file \<notin>
           {Some (js ''image/png''), Some (js ''image/jpeg''), Some (js ''image/webp'')}"
  shows "POST e request =
           (Inr \<lparr>status = 400, body = ErrorBody (js ''Unsupported file type'')\<rparr>,
            [Auth, RequestFormData]) \<and>
         uploads (snd (POST e request)) = []"
proof -
  from assms(6) have "\<not> array_includes validTypes (type_of file)"
    by (cases "type_of file") (simp_all add: validTypes_def)
  with assms(1-5) have
    "POST e request =
       (Inr \<lparr>status = 400, body = ErrorBody (js ''Unsupported file type'')\<rparr>,
        [Auth, RequestFormData])"
    by (simp add: POST_def POST_try_def NextResponse_json_def)
  then show ?thesis by simp
qed

text \<open>The property at a concrete run.\<close>

theorem unsupported_type_rejected_witness:
  "POST u1_env pdf_request =
     (Inr \<lparr>status = 400, body = ErrorBody (js ''Unsupported file type'')\<rparr>,
      [Auth, RequestFormData]) \<and>
   uploads (snd (POST u1_env pdf_request)) = []"
  using unsupported_type_rejected
    [of u1_env "js ''u1''" pdf_request
        "upload_form (js ''application/pdf'') [1, 2, 3] (js ''doc.pdf'')"
        "FormFile \<lparr>type = js ''application/pdf'', arrayBuffer = Inr [1, 2, 3]\<rparr>"]
  by (simp add: u1_env_def pdf_request_def upload_form_def formData_get_def js_def)

text \<open>
  Claim C2. An authenticated request carrying a file of an allowed type whose bytes
  number more than \<open>5 * 1024 * 1024\<close> is answered with status 400 and body
  \<open>{ error: "File too large (max 5MB allowed)" }\<close>. The bytes are read, the bound is
  checked in the handler, and the trace holds no store upload.
\<close>

theorem too_large_rejected:
  assumes "auth e = Inr (Some userId)" and "userId \<noteq> []"
    and "formData request = Inr fd"
    and "formData_get fd (js ''file'') = Some (FormFile f)"
    and "type f \<in> {js ''image/png'', js ''image/jpeg'', js ''image/webp''}"
    and "arrayBuffer f = Inr buffer"
    and "length buffer > 5 * 1024 * 1024"
  shows "POST e request =
           (Inr \<lparr>status = 400,
                body = ErrorBody (js ''File too large (max 5MB allowed)'')\<rparr>,
            [Auth, RequestFormData, FileArrayBuffer]) \<and>
         uploads (snd (POST e request)) = []"
proof -
  from assms(5) have "array_includes validTypes (Some (type f))"
    by (simp add: validTypes_def)
  with assms(1-4,6,7) have
    "POST e request =
       (Inr \<lparr>status = 400,
            body = ErrorBody (js ''File too large (max 5MB allowed)'')\<rparr>,
        [Auth, RequestFormData, FileArrayBuffer])"
    by (simp add: POST_def POST_try_def NextResponse_json_def MAX_SIZE_def)
  then show ?thesis by simp
qed

text \<open>The property at a concrete run.\<close>

theorem too_large_rejected_witness:
  "POST u1_env big_request =
     (Inr \<lparr>status = 400, body = ErrorBody (js ''File too large (max 5MB allowed)'')\<rparr>,
      [Auth, RequestFormData, FileArrayBuffer]) \<and>
   uploads (snd (POST u1_env big_request)) = []"
  using too_large_rejected
    [of u1_env "js ''u1''" big_request
        "upload_form (js ''image/png'') (replicate (6 * 1024 * 1024) 0) (js ''big.png'')"
        "\<lparr>type = js ''image/png'', arrayBuffer = Inr (replicate (6 * 1024 * 1024) 0)\<rparr>"
        "replicate (6 * 1024 * 1024) 0"]
  by (simp add: u1_env_def big_request_def upload_form_def formData_get_def js_def)

text \<open>
  Claim C3. When the auth collaborator returns no caller identity (\<open>null\<close> or the empty
  string), the answer is status 401 with body \<open>{ error: "Unauthorized" }\<close>, whatever the
  request is. The trace is the auth call alone: the form is never read, so no check of
  presence, type or size takes place, and the store is never called.
\<close>

theorem unauthorized_before_validation:
  assumes "auth e = Inr userId" and "\<not> truthy userId"
  shows "POST e request =
           (Inr \<lparr>status = 401, body = ErrorBody (js ''Unauthorized'')\<rparr>, [Auth]) \<and>
         uploads (snd (POST e request)) = []"
  using assms by (simp add: POST_def POST_try_def NextResponse_json_def)

text \<open>The property at a concrete run.\<close>

theorem unauthorized_before_validation_witness:
  "POST anonymous_env big_request =
     (Inr \<lparr>status = 401, body = ErrorBody (js ''Unauthorized'')\<rparr>, [Auth]) \<and>
   uploads (snd (POST anonymous_env big_request)) = []"
  using unauthorized_before_validation [of anonymous_env None big_request]
  by (simp add: anonymous_env_def)

text \<open>
  Claim C4, as stated, fails on the lower bound. The presence check \<open>!file\<close> tests that a
  \<open>File\<close> object is there, not that it has bytes: an empty \<open>image/png\<close> file passes every
  check and its zero bytes are forwarded to the store, against the invariant's
  \<open>length > 0\<close>.
\<close>

theorem empty_file_forwarded:
  "\<lparr>opt_file = [], opt_fileName = js ''u1/1700000000123_empty.png'',
     opt_folder = js ''/projects''\<rparr>
     \<in> set (uploads (snd (POST u1_env empty_request))) \<and>
   \<not> UploadRequest_invariant [] (js ''image/png'')"
  by (simp add: POST_def POST_try_def UploadRequest_invariant_def sample_defs)

text \<open>
  Claim C4, amended. Every payload forwarded to the store's upload is the byte content of
  the request's \<open>file\<close> field, a \<open>File\<close> whose declared content type is in the allow-list,
  and has at most \<open>5 * 1024 * 1024\<close> bytes. No lower bound on the length is enforced.
\<close>

theorem forwarded_payload_bounded:
  assumes "p \<in> set (uploads (snd (POST e request)))"
  shows "\<exists>fd f. formData request = Inr fd \<and>
           formData_get fd (js ''file'') = Some (FormFile f) \<and>
           arrayBuffer f = Inr (opt_file p) \<and>
           length (opt_file p) \<le> 5 * 1024 * 1024 \<and>
           type f \<in> {js ''image/png'', js ''image/jpeg'', js ''image/webp''}"
proof -
  from assms have "p \<in> set (uploads (snd (POST_try e request)))"
    by (simp add: uploads_POST)
  from uploads_POST_try [OF this] obtain userId fd f buffer n where
    "formData request = Inr fd" "formData_get fd (js ''file'') = Some (FormFile f)"
    "type f \<in> set validTypes" "arrayBuffer f = Inr buffer" "length buffer \<le> MAX_SIZE"
    "p = \<lparr>opt_file = buffer,
          opt_fileName = uniqueFileName userId (Date_now e) n,
          opt_folder = js ''/projects''\<rparr>"
    by blast
  then show ?thesis
    by (simp add: validTypes_def MAX_SIZE_def)
qed

text \<open>The property at a concrete run.\<close>

theorem forwarded_payload_bounded_witness:
  "\<exists>fd f. formData photo_request = Inr fd \<and>
      formData_get fd (js ''file'') = Some (FormFile f) \<and>
      arrayBuffer f = Inr (replicate 1024 7) \<and>
      length (replicate 1024 (7 :: byte)) \<le> 5 * 1024 * 1024 \<and>
      type f \<in> {js ''image/png'', js ''image/jpeg'', js ''image/webp''}"
  using forwarded_payload_bounded
    [of "\<lparr>opt_file = replicate 1024 7, opt_fileName = js ''u1/1700000000123_My_Photo_.png'',
          opt_folder = js ''/projects''\<rparr>"
        u1_env photo_request]
  by (simp add: POST_photo)

text \<open>
  Claim C5. When the handler answers 200, exactly one upload reached the store and its
  storage key is \<open>{callerId}/{timestamp}_{sanitizedName}\<close>: the caller identity, a slash,
  the decimal numeral of \<open>Date.now()\<close> (\<open>decimal_numeral\<close>, which by
  \<open>decimal_numeral_unique\<close> fits one string only), an underscore and the sanitized name,
  where the sanitized name is the one the specification describes (\<open>spec_sanitizedName\<close>)
  applied to the \<open>fileName\<close> field, absent or a string. In particular the suggested name
  \<open>"My Photo!.png"\<close> sanitizes to \<open>"My_Photo_.png"\<close>, and caller \<open>u1\<close> at clock reading
  \<open>1700000000123\<close> gets the key \<open>"u1/1700000000123_My_Photo_.png"\<close>.
\<close>

theorem storage_key_format:
  "(fst (POST e request) = Inr resp \<and> status resp = 200 \<longrightarrow>
      (\<exists>userId fd suggested ts.
         auth e = Inr (Some userId) \<and> formData request = Inr fd \<and>
         formData_get fd (js ''fileName'') = map_option FormString suggested \<and>
         decimal_numeral ts (Date_now e) \<and>
         map opt_fileName (uploads (snd (POST e request))) =
           [userId @ js ''/'' @ ts @ js ''_'' @ spec_sanitizedName suggested])) \<and>
   sanitizedFileName (Some (FormString (js ''My Photo!.png''))) = Inr (js ''My_Photo_.png'') \<and>
   uniqueFileName (js ''u1'') 1700000000123 (js ''My_Photo_.png'') =
     js ''u1/1700000000123_My_Photo_.png''"
proof (intro conjI impI)
  assume a: "fst (POST e request) = Inr resp \<and> status resp = 200"
  then have "fst (POST e request) = Inr resp" and st: "status resp = 200" by simp_all
  from POST_status_200 [OF this] obtain t where
    ok: "POST_try e request = (Inr resp, t)" by blast
  from POST_try_success [OF ok st] obtain userId fd f buffer n r where v:
    "auth e = Inr (Some userId)" "userId \<noteq> []"
    "formData request = Inr fd"
    "formData_get fd (js ''file'') = Some (FormFile f)"
    "type f \<in> set validTypes"
    "arrayBuffer f = Inr buffer"
    "length buffer \<le> MAX_SIZE"
    "sanitizedFileName (formData_get fd (js ''fileName'')) = Inr n"
    and up: "imagekit_upload e \<lparr>opt_file = buffer,
           opt_fileName = uniqueFileName userId (Date_now e) n,
           opt_folder = js ''/projects''\<rparr> = Inr r"
    by blast
  from sanitizedFileName_spec [OF v(8)] obtain suggested where s:
    "formData_get fd (js ''fileName'') = map_option FormString suggested"
    "n = spec_sanitizedName suggested" by blast
  from POST_try_validated [OF v] up
  have "map opt_fileName (uploads (snd (POST_try e request))) =
          [uniqueFileName userId (Date_now e) n]"
    by (simp add: Let_def)
  with s(2) have "map opt_fileName (uploads (snd (POST e request))) =
      [userId @ js ''/'' @ Number_toString (Date_now e) @ js ''_'' @
       spec_sanitizedName suggested]"
    by (simp add: uploads_POST uniqueFileName_def)
  with v(1,3) s(1) decimal_numeral_Number_toString [of "Date_now e"]
  show "\<exists>userId fd suggested ts.
         auth e = Inr (Some userId) \<and> formData request = Inr fd \<and>
         formData_get fd (js ''fileName'') = map_option FormString suggested \<and>
         decimal_numeral ts (Date_now e) \<and>
         map opt_fileName (uploads (snd (POST e request))) =
           [userId @ js ''/'' @ ts @ js ''_'' @ spec_sanitizedName suggested]"
    by (intro exI [of _ userId] exI [of _ fd] exI [of _ suggested]
        exI [of _ "Number_toString (Date_now e)"]) simp
next
  show "sanitizedFileName (Some (FormString (js ''My Photo!.png''))) = Inr (js ''My_Photo_.png'')"
    by (simp add: sanitizedFileName_def sanitize_replace_def or_default_def in_class_def js_def)
next
  show "uniqueFileName (js ''u1'') 1700000000123 (js ''My_Photo_.png'') =
     js ''u1/1700000000123_My_Photo_.png''"
    by (simp add: uniqueFileName_def Number_toString_def digit_string.simps js_def)
qed

text \<open>
  The property at a concrete run: caller \<open>u1\<close>, a 1024-byte \<open>image/png\<close>, suggested name
  \<open>"My Photo!.png"\<close>, clock reading \<open>1700000000123\<close>.
\<close>

theorem storage_key_format_witness:
  "fst (POST u1_env photo_request) =
     Inr \<lparr>status = 200,
      body = SuccessBody
        (js ''https://ik.example/projects/u1/1700000000123_My_Photo_.png'')
        (js ''https://ik.example/projects/u1/1700000000123_My_Photo_.png?tr=w-400,h-300,cm-maintain_ar,q-80'')
        (js ''f1'') 800 600 1024 (js ''u1/1700000000123_My_Photo_.png'')\<rparr> \<and>
   map opt_fileName (uploads (snd (POST u1_env photo_request))) =
     [js ''u1/1700000000123_My_Photo_.png''] \<and>
   (\<exists>userId fd suggested ts.
      auth u1_env = Inr (Some userId) \<and> formData photo_request = Inr fd \<and>
      formData_get fd (js ''fileName'') = map_option FormString suggested \<and>
      decimal_numeral ts (Date_now u1_env) \<and>
      map opt_fileName (uploads (snd (POST u1_env photo_request))) =
        [userId @ js ''/'' @ ts @ js ''_'' @ spec_sanitizedName suggested])"
proof -
  let ?resp = "\<lparr>status = 200,
      body = SuccessBody
        (js ''https://ik.example/projects/u1/1700000000123_My_Photo_.png'')
        (js ''https://ik.example/projects/u1/1700000000123_My_Photo_.png?tr=w-400,h-300,cm-maintain_ar,q-80'')
        (js ''f1'') 800 600 1024 (js ''u1/1700000000123_My_Photo_.png'')\<rparr>"
  have r: "fst (POST u1_env photo_request) = Inr ?resp"
    by (simp add: POST_photo)
  have k: "map opt_fileName (uploads (snd (POST u1_env photo_request))) =
     [js ''u1/1700000000123_My_Photo_.png'']"
    by (simp add: POST_photo)
  have h: "fst (POST u1_env photo_request) = Inr ?resp \<and> status ?resp = 200"
    using r by simp
  note ex = storage_key_format [of u1_env photo_request ?resp, THEN conjunct1, THEN mp, OF h]
  from r k ex show ?thesis by (intro conjI)
qed

text \<open>
  Claim C6. For a fixed caller and request, ingestions at two different clock readings
  send different storage keys to the store; for a fixed clock reading and request,
  ingestions by two different callers send different storage keys. Both hold already for
  the key function \<open>uniqueFileName\<close> at any name: the decimal numeral of the timestamp
  is injective, and the caller prefix is followed by the same remainder.
\<close>

theorem storage_key_unique:
  "(t1 \<noteq> t2 \<and>
    p1 \<in> set (uploads (snd (POST (e\<lparr>Date_now := t1\<rparr>) request))) \<and>
    p2 \<in> set (uploads (snd (POST (e\<lparr>Date_now := t2\<rparr>) request)))
      \<longrightarrow> opt_fileName p1 \<noteq> opt_fileName p2) \<and>
   (u1 \<noteq> u2 \<and>
    q1 \<in> set (uploads (snd (POST (e\<lparr>auth := Inr (Some u1)\<rparr>) request))) \<and>
    q2 \<in> set (uploads (snd (POST (e\<lparr>auth := Inr (Some u2)\<rparr>) request)))
      \<longrightarrow> opt_fileName q1 \<noteq> opt_fileName q2) \<and>
   (t1 \<noteq> t2 \<longrightarrow> uniqueFileName u t1 n \<noteq> uniqueFileName u t2 n) \<and>
   (u1 \<noteq> u2 \<longrightarrow> uniqueFileName u1 t n \<noteq> uniqueFileName u2 t n)"
proof (intro conjI impI)
  assume a: "t1 \<noteq> t2 \<and>
    p1 \<in> set (uploads (snd (POST (e\<lparr>Date_now := t1\<rparr>) request))) \<and>
    p2 \<in> set (uploads (snd (POST (e\<lparr>Date_now := t2\<rparr>) request)))"
  then have "p1 \<in> set (uploads (snd (POST_try (e\<lparr>Date_now := t1\<rparr>) request)))"
    and "p2 \<in> set (uploads (snd (POST_try (e\<lparr>Date_now := t2\<rparr>) request)))"
    by (simp_all add: uploads_POST)
  from uploads_POST_try [OF this(1)] uploads_POST_try [OF this(2)]
  obtain userId n where
    "opt_fileName p1 = uniqueFileName userId t1 n"
    "opt_fileName p2 = uniqueFileName userId t2 n"
    by auto
  with a show "opt_fileName p1 \<noteq> opt_fileName p2"
    by (auto dest: uniqueFileName_timestamp_inj)
next
  assume a: "u1 \<noteq> u2 \<and>
    q1 \<in> set (uploads (snd (POST (e\<lparr>auth := Inr (Some u1)\<rparr>) request))) \<and>
    q2 \<in> set (uploads (snd (POST (e\<lparr>auth := Inr (Some u2)\<rparr>) request)))"
  then have "q1 \<in> set (uploads (snd (POST_try (e\<lparr>auth := Inr (Some u1)\<rparr>) request)))"
    and "q2 \<in> set (uploads (snd (POST_try (e\<lparr>auth := Inr (Some u2)\<rparr>) request)))"
    by (simp_all add: uploads_POST)
  from uploads_POST_try [OF this(1)] uploads_POST_try [OF this(2)]
  obtain n where
    "opt_fileName q1 = uniqueFileName u1 (Date_now e) n"
    "opt_fileName q2 = uniqueFileName u2 (Date_now e) n"
    by auto
  with a show "opt_fileName q1 \<noteq> opt_fileName q2"
    by (auto dest: uniqueFileName_caller_inj)
next
  assume "t1 \<noteq> t2"
  then show "uniqueFileName u t1 n \<noteq> uniqueFileName u t2 n"
    by (auto dest: uniqueFileName_timestamp_inj)
next
  assume "u1 \<noteq> u2"
  then show "uniqueFileName u1 t n \<noteq> uniqueFileName u2 t n"
    by (auto dest: uniqueFileName_caller_inj)
qed

text \<open>The property at a concrete run.\<close>

theorem storage_key_unique_witness:
  "js ''u1/1700000000123_My_Photo_.png'' \<noteq> js ''u1/1700000000124_My_Photo_.png'' \<and>
   js ''u1/1700000000123_My_Photo_.png'' \<noteq> js ''u2/1700000000123_My_Photo_.png''"
proof -
  let ?p = "\<lambda>k. \<lparr>opt_file = replicate 1024 (7 :: byte), opt_fileName = k,
                   opt_folder = js ''/projects''\<rparr>"
  have a: "(1700000000123 :: int) \<noteq> 1700000000124 \<and>
      ?p (js ''u1/1700000000123_My_Photo_.png'')
        \<in> set (uploads (snd (POST (u1_env\<lparr>Date_now := 1700000000123\<rparr>) photo_request))) \<and>
      ?p (js ''u1/1700000000124_My_Photo_.png'')
        \<in> set (uploads (snd (POST (u1_env\<lparr>Date_now := 1700000000124\<rparr>) photo_request)))"
    by (simp add: POST_def POST_try_def sample_defs)
  have b: "js ''u1'' \<noteq> js ''u2'' \<and>
      ?p (js ''u1/1700000000123_My_Photo_.png'')
        \<in> set (uploads (snd (POST (u1_env\<lparr>auth := Inr (Some (js ''u1''))\<rparr>) photo_request))) \<and>
      ?p (js ''u2/1700000000123_My_Photo_.png'')
        \<in> set (uploads (snd (POST (u1_env\<lparr>auth := Inr (Some (js ''u2''))\<rparr>) photo_request)))"
    by (simp add: POST_def POST_try_def sample_defs)
  note u = storage_key_unique
    [of 1700000000123 1700000000124
        "?p (js ''u1/1700000000123_My_Photo_.png'')" u1_env photo_request
        "?p (js ''u1/1700000000124_My_Photo_.png'')"
        "js ''u1''" "js ''u2''"
        "?p (js ''u1/1700000000123_My_Photo_.png'')"
        "?p (js ''u2/1700000000123_My_Photo_.png'')"]
  from u [THEN conjunct1, THEN mp, OF a] u [THEN conjunct2, THEN conjunct1, THEN mp, OF b]
  show ?thesis by simp
qed

text \<open>
  Claim C7. Sanitization is total and idempotent. On every string the expression
  \<open>fileName?.replace(...) || "upload"\<close> returns a string \<open>r\<close> without throwing, every code
  unit of \<open>r\<close> is in the safe set \<open>[a-zA-Z0-9._-]\<close>, and sanitizing \<open>r\<close> again returns
  \<open>r\<close>. The same holds for the bare replacement.
\<close>

theorem sanitization_total_idempotent:
  "(\<exists>r. sanitizedFileName (Some (FormString s)) = Inr r \<and> list_all safe_set r \<and>
        sanitizedFileName (Some (FormString r)) = Inr r) \<and>
   sanitize_replace (sanitize_replace s) = sanitize_replace s \<and>
   list_all safe_set (sanitize_replace s)"
proof (intro conjI)
  show "\<exists>r. sanitizedFileName (Some (FormString s)) = Inr r \<and> list_all safe_set r \<and>
        sanitizedFileName (Some (FormString r)) = Inr r"
  proof (cases "s = []")
    case True
    have "list_all safe_set (js ''upload'')"
      using sanitize_replace_safe [of "js ''upload''"] by (simp add: sanitize_replace_upload)
    with True show ?thesis
      by (simp add: sanitizedFileName_string upload_not_Nil sanitize_replace_upload)
  next
    case False
    then show ?thesis
      by (simp add: sanitizedFileName_string sanitize_replace_Nil_iff sanitize_replace_idem
          sanitize_replace_safe)
  qed
next
  show "sanitize_replace (sanitize_replace s) = sanitize_replace s"
    by (rule sanitize_replace_idem)
next
  show "list_all safe_set (sanitize_replace s)"
    by (rule sanitize_replace_safe)
qed

text \<open>The property at a concrete run.\<close>

theorem sanitization_total_idempotent_witness:
  "sanitizedFileName (Some (FormString (js ''My Photo!.png''))) = Inr (js ''My_Photo_.png'') \<and>
   sanitize_replace (sanitize_replace (js ''My Photo!.png'')) = js ''My_Photo_.png'' \<and>
   list_all safe_set (js ''My_Photo_.png'')"
proof -
  have s: "sanitize_replace (js ''My Photo!.png'') = js ''My_Photo_.png''"
    by (simp add: sanitize_replace_def in_class_def js_def)
  have n: "js ''My Photo!.png'' \<noteq> []" by (simp add: js_def)
  from sanitization_total_idempotent [of "js ''My Photo!.png''"] s n
  show ?thesis by (simp add: sanitizedFileName_string)
qed

text \<open>
  Claim C8. Whenever the store's upload was invoked with \<open>p\<close> and succeeded with \<open>r\<close>, the
  answer is status 200 with body \<open>{ success: true, url, thumbnailUrl, fileId, width,
  height, size, name }\<close>, where \<open>url\<close>, \<open>fileId\<close>, \<open>width\<close>, \<open>height\<close>, \<open>size\<close> and \<open>name\<close> are
  those of \<open>r\<close> and \<open>thumbnailUrl\<close> is the SDK's URL builder applied to \<open>r\<close>'s URL with the
  transformation width 400, height 300, crop mode \<open>maintain_ar\<close>, quality 80. The trace
  holds that one upload and, after it, only the URL builder.
\<close>

theorem success_response:
  assumes "p \<in> set (uploads (snd (POST e request)))" and "imagekit_upload e p = Inr r"
  shows "POST e request =
    (Inr \<lparr>status = 200,
       body = SuccessBody (resp_url r)
         (imagekit_url e
            \<lparr>src = resp_url r,
             transformation =
               [\<lparr>width = 400, height = 300, cropMode = js ''maintain_ar'', quality = 80\<rparr>]\<rparr>)
         (resp_fileId r) (resp_width r) (resp_height r) (resp_size r) (resp_name r)\<rparr>,
     [Auth, RequestFormData, FileArrayBuffer, DateNow, ImagekitUpload p,
      ImagekitUrl
        \<lparr>src = resp_url r,
         transformation =
           [\<lparr>width = 400, height = 300, cropMode = js ''maintain_ar'', quality = 80\<rparr>]\<rparr>])"
proof -
  from assms(1) have "p \<in> set (uploads (snd (POST_try e request)))"
    by (simp add: uploads_POST)
  from uploads_POST_try [OF this] obtain userId fd f buffer n where v:
    "auth e = Inr (Some userId)" "userId \<noteq> []"
    "formData request = Inr fd"
    "formData_get fd (js ''file'') = Some (FormFile f)"
    "type f \<in> set validTypes"
    "arrayBuffer f = Inr buffer"
    "length buffer \<le> MAX_SIZE"
    "sanitizedFileName (formData_get fd (js ''fileName'')) = Inr n"
    and p: "p = \<lparr>opt_file = buffer,
          opt_fileName = uniqueFileName userId (Date_now e) n,
          opt_folder = js ''/projects''\<rparr>"
    by blast
  from POST_try_validated [OF v] p assms(2) show ?thesis
    by (simp add: POST_def Let_def NextResponse_json_def thumbnail_options_def)
qed

text \<open>The property at a concrete run.\<close>

theorem success_response_witness:
  "POST u1_env photo_request =
   (Inr \<lparr>status = 200,
      body = SuccessBody
        (js ''https://ik.example/projects/u1/1700000000123_My_Photo_.png'')
        (js ''https://ik.example/projects/u1/1700000000123_My_Photo_.png?tr=w-400,h-300,cm-maintain_ar,q-80'')
        (js ''f1'') 800 600 1024 (js ''u1/1700000000123_My_Photo_.png'')\<rparr>,
    [Auth, RequestFormData, FileArrayBuffer, DateNow,
     ImagekitUpload \<lparr>opt_file = replicate 1024 7,
        opt_fileName = js ''u1/1700000000123_My_Photo_.png'',
        opt_folder = js ''/projects''\<rparr>,
     ImagekitUrl
        \<lparr>src = js ''https://ik.example/projects/u1/1700000000123_My_Photo_.png'',
         transformation =
           [\<lparr>width = 400, height = 300, cropMode = js ''maintain_ar'', quality = 80\<rparr>]\<rparr>])"
proof -
  let ?p = "\<lparr>opt_file = replicate 1024 (7 :: byte),
        opt_fileName = js ''u1/1700000000123_My_Photo_.png'',
        opt_folder = js ''/projects''\<rparr>"
  let ?r = "\<lparr>resp_url = js ''https://ik.example/projects/u1/1700000000123_My_Photo_.png'',
          resp_fileId = js ''f1'', resp_width = 800, resp_height = 600, resp_size = 1024,
          resp_name = js ''u1/1700000000123_My_Photo_.png''\<rparr>"
  have a: "?p \<in> set (uploads (snd (POST u1_env photo_request)))"
    by (simp add: POST_photo)
  have b: "imagekit_upload u1_env ?p = Inr ?r"
    by (simp add: u1_env_def sample_store_def js_def)
  from success_response [OF a b] show ?thesis
    by (simp add: u1_env_def sample_url_def js_def)
qed




text \<open>
  Claim C10. The replacement keeps the length of the string, counted in code units, so a
  non-empty name stays non-empty. The left operand of \<open>||\<close> is falsy exactly when the
  \<open>fileName\<close> field is absent or the empty string; in those cases the sanitized name is
  \<open>"upload"\<close>, and for a non-empty string it is the replaced string. Every storage key
  sent to the store is the caller identity, a slash, the printed timestamp, an
  underscore and the sanitized \<open>fileName\<close> field, which is non-empty.
\<close>

theorem sanitization_preserves_length:
  "length (sanitize_replace s) = length s \<and>
   (s \<noteq> [] \<longrightarrow> sanitize_replace s \<noteq> []) \<and>
   (optional_replace fileName = Inr r \<longrightarrow>
      (\<not> truthy r \<longleftrightarrow> fileName = None \<or> fileName = Some (FormString []))) \<and>
   (fileName = None \<or> fileName = Some (FormString []) \<longrightarrow>
      sanitizedFileName fileName = Inr (js ''upload'')) \<and>
   (s \<noteq> [] \<longrightarrow> sanitizedFileName (Some (FormString s)) = Inr (sanitize_replace s)) \<and>
   (p \<in> set (uploads (snd (POST e request))) \<longrightarrow>
      (\<exists>userId fd n.
         auth e = Inr (Some userId) \<and> formData request = Inr fd \<and>
         sanitizedFileName (formData_get fd (js ''fileName'')) = Inr n \<and> n \<noteq> [] \<and>
         opt_fileName p =
           userId @ js ''/'' @ Number_toString (Date_now e) @ js ''_'' @ n))"
proof (intro conjI impI)
  show "length (sanitize_replace s) = length s"
    by (rule length_sanitize_replace)
next
  assume "s \<noteq> []"
  then show "sanitize_replace s \<noteq> []"
    by (simp add: sanitize_replace_Nil_iff)
next
  assume "optional_replace fileName = Inr r"
  then show "\<not> truthy r \<longleftrightarrow> fileName = None \<or> fileName = Some (FormString [])"
    by (cases fileName rule: optional_replace.cases)
       (auto simp add: sanitize_replace_Nil_iff)
next
  assume "fileName = None \<or> fileName = Some (FormString [])"
  then show "sanitizedFileName fileName = Inr (js ''upload'')"
    by (auto simp add: sanitizedFileName_def or_default_def sanitize_replace_def)
next
  assume "s \<noteq> []"
  then show "sanitizedFileName (Some (FormString s)) = Inr (sanitize_replace s)"
    by (simp add: sanitizedFileName_string)
next
  assume "p \<in> set (uploads (snd (POST e request)))"
  then have "p \<in> set (uploads (snd (POST_try e request)))"
    by (simp add: uploads_POST)
  from uploads_POST_try [OF this] obtain userId fd n where
    a: "auth e = Inr (Some userId)" and f: "formData request = Inr fd"
    and n: "sanitizedFileName (formData_get fd (js ''fileName'')) = Inr n"
    and p: "opt_fileName p = uniqueFileName userId (Date_now e) n"
    by auto
  from sanitizedFileName_not_Nil [OF n] a f n p
  show "\<exists>userId fd n.
         auth e = Inr (Some userId) \<and> formData request = Inr fd \<and>
         sanitizedFileName (formData_get fd (js ''fileName'')) = Inr n \<and> n \<noteq> [] \<and>
         opt_fileName p =
           userId @ js ''/'' @ Number_toString (Date_now e) @ js ''_'' @ n"
    by (intro exI [of _ userId] exI [of _ fd] exI [of _ n]) (simp add: uniqueFileName_def)
qed

text \<open>The property at a concrete run.\<close>

theorem sanitization_preserves_length_witness:
  "length (sanitize_replace (js ''My Photo!.png'')) = 13 \<and>
   sanitize_replace (js ''My Photo!.png'') \<noteq> [] \<and>
   sanitizedFileName None = Inr (js ''upload'') \<and>
   sanitizedFileName (Some (FormString (js ''My Photo!.png''))) =
     Inr (sanitize_replace (js ''My Photo!.png''))"
  using sanitization_preserves_length [of "js ''My Photo!.png''" None None]
  by (simp add: js_def)

end
